theory Spec2Isabelle
  imports Main
begin

section \<open>Bituin, the MicroScript package manager (src/main.go)\<close>

text \<open>
  A shallow embedding of the Go implementation of \<^verbatim>\<open>bituin\<close>. Strings are byte strings
  (\<open>char list\<close>), as Go's \<^verbatim>\<open>string\<close> is. The operating system (working directory, file
  system, child processes, clock, path syntax) is a parameter of every command, and every
  \<^verbatim>\<open>os.Exit(1)\<close> is a value of the result.
\<close>

subsection \<open>Constants and templates\<close>

definition VERSION :: string where
  "VERSION = ''v0.1.0''"

definition AUTHOR :: string where
  "AUTHOR = ''Cyril John Magayaga''"

definition PREVIEW_FLAG :: string where
  "PREVIEW_FLAG = ''--preview''"

definition NEW :: string where "NEW = ''new''"
definition INIT :: string where "INIT = ''init''"
definition RUN :: string where "RUN = ''run''"
definition ADD :: string where "ADD = ''add''"
definition HELP :: string where "HELP = ''help''"
definition VERSION_CMD :: string where "VERSION_CMD = ''version''"
definition AUTHOR_CMD :: string where "AUTHOR_CMD = ''author''"

definition MAIN_MICROSCRIPT :: string where
  \<open>MAIN_MICROSCRIPT =
     ''function main() {\<newline>    console.write("Hello, World!");\<newline>}\<newline>\<newline>main();''\<close>

text \<open>\<^verbatim>\<open>fmt.Sprintf\<close> with one \<^verbatim>\<open>%s\<close> is concatenation.\<close>

definition getBituinToml :: "string \<Rightarrow> string" where
  \<open>getBituinToml projectName =
     ''[package]\<newline>name = "'' @ projectName @ ''"\<newline>main_file = "src/main.microscript"''\<close>

subsection \<open>The pattern \<^verbatim>\<open>main_file\s*=\s*"([^"]+)"\<close>\<close>

text \<open>
  Lines 165 and 173 compile this pattern. The package \<^verbatim>\<open>regexp\<close> belongs to Go's library,
  not to the repository; what it does is written out here for this one pattern. It
  finds the leftmost match and, at one start position, the match a
  backtracking search would find first. For this pattern there is at most one match at
  each start position: after the literal \<^verbatim>\<open>main_file\<close>, each \<^verbatim>\<open>\s*\<close> must be
  followed by a character that is not white space (\<^verbatim>\<open>=\<close>, then the quote), so it takes
  all the white space there is, and \<^verbatim>\<open>[^"]+\<close> must be followed by a quote, so it takes
  everything up to the next quote. \<open>match_here\<close> is that match. \<^verbatim>\<open>\s\<close> is the ASCII class
  \<^verbatim>\<open>[\t\n\f\r ]\<close>; a negated class matches a newline as well. The pattern works on runes
  and the model on bytes: no byte of a multi-byte rune is a quote or ASCII, and an
  invalid byte is one rune, so both see the same matches. Further down,
  \<open>match_here_iff\<close> and \<open>pattern_match_unique\<close> relate \<open>match_here\<close> to the language
  of the pattern.
\<close>

definition isSpace :: "char \<Rightarrow> bool" where
  "isSpace c = (c = CHR 0x09 \<or> c = CHR 0x0A \<or> c = CHR 0x0C \<or> c = CHR 0x0D \<or> c = CHR 0x20)"

definition notQuote :: "char \<Rightarrow> bool" where
  "notQuote c = (c \<noteq> CHR 0x22)"

fun stripPrefix :: "string \<Rightarrow> string \<Rightarrow> string option" where
  "stripPrefix [] s = Some s"
| "stripPrefix (p # ps) [] = None"
| "stripPrefix (p # ps) (c # cs) = (if p = c then stripPrefix ps cs else None)"

text \<open>
  \<open>match_here s\<close> is \<open>Some (whole, cap)\<close> when the pattern matches at the start of
  \<open>s\<close>: \<open>whole\<close> is the matched text (submatch 0, the concatenation of what each
  element of the pattern consumed) and \<open>cap\<close> what the parenthesis captured
  (submatch 1). The match ends \<open>length whole\<close> bytes into \<open>s\<close>.
\<close>

definition match_here :: "string \<Rightarrow> (string \<times> string) option" where
  "match_here s =
     (case stripPrefix ''main_file'' s of
        None \<Rightarrow> None
      | Some s1 \<Rightarrow>
          (case dropWhile isSpace s1 of
             [] \<Rightarrow> None
           | e # s2 \<Rightarrow>
               if e \<noteq> CHR ''='' then None
               else
                 (case dropWhile isSpace s2 of
                    [] \<Rightarrow> None
                  | q # s3 \<Rightarrow>
                      if q \<noteq> CHR 0x22 then None
                      else
                        (case dropWhile notQuote s3 of
                           [] \<Rightarrow> None
                         | q' # rest \<Rightarrow>
                             if takeWhile notQuote s3 = [] then None
                             else Some (''main_file'' @ takeWhile isSpace s1 @ [e] @
                                          takeWhile isSpace s2 @ [q] @
                                          takeWhile notQuote s3 @ [q'],
                                        takeWhile notQuote s3)))))"

text \<open>
  \<^verbatim>\<open>re.FindStringSubmatch(s)\<close>: the leftmost match as \<open>[whole, cap]\<close>, or \<open>[]\<close>
  (Go's \<^verbatim>\<open>nil\<close>) when there is none.
\<close>

fun FindStringSubmatch :: "string \<Rightarrow> string list" where
  "FindStringSubmatch [] = []"
| "FindStringSubmatch (c # cs) =
     (case match_here (c # cs) of
        Some (whole, cap) \<Rightarrow> [whole, cap]
      | None \<Rightarrow> FindStringSubmatch cs)"

subsection \<open>Replacement templates: \<^verbatim>\<open>Regexp.expand\<close>\<close>

text \<open>
  \<^verbatim>\<open>ReplaceAllString\<close> reads its replacement as a template: \<^verbatim>\<open>$$\<close> is a dollar,
  \<^verbatim>\<open>$name\<close> and \<^verbatim>\<open>${name}\<close> stand for a submatch, where a name is the longest run of
  letters, digits and underscores; a dollar followed by no name stays. A name that is a
  number without leading zero selects that submatch, empty when out of range; any other
  name selects a named group, and this pattern has none. The model knows the ASCII
  letters and digits only: in a template where a byte above 0x7F follows the dollar
  (after an optional brace and ASCII name characters), Go would consult its Unicode tables.
  No theorem below is about such a template.
\<close>

definition isDigit :: "char \<Rightarrow> bool" where
  "isDigit c = (48 \<le> (of_char c :: nat) \<and> (of_char c :: nat) \<le> 57)"

definition isLetter :: "char \<Rightarrow> bool" where
  "isLetter c = ((65 \<le> (of_char c :: nat) \<and> (of_char c :: nat) \<le> 90) \<or>
                 (97 \<le> (of_char c :: nat) \<and> (of_char c :: nat) \<le> 122))"

definition isNameByte :: "char \<Rightarrow> bool" where
  "isNameByte c = (isLetter c \<or> isDigit c \<or> c = CHR ''_'')"

text \<open>The number a name denotes, \<open>- 1\<close> when it is not one (the loop of \<^verbatim>\<open>extract\<close>).\<close>

fun parseNum :: "string \<Rightarrow> int \<Rightarrow> int" where
  "parseNum [] num = num"
| "parseNum (c # cs) num =
     (if \<not> isDigit c \<or> num \<ge> 100000000 then - 1
      else parseNum cs (num * 10 + int (of_char c) - 48))"

text \<open>
  \<open>extract_name str\<close> (\<^verbatim>\<open>extract\<close> in Go), for the template after a dollar: \<open>None\<close> when no name follows
  (\<^verbatim>\<open>ok = false\<close>), else the name, its number and how many bytes of \<open>str\<close> it took.
\<close>

definition extract_name :: "string \<Rightarrow> (string \<times> int \<times> nat) option" where
  "extract_name str =
     (if str = [] then None
      else
        let brace = (hd str = CHR ''{'');
            str1 = (if brace then tl str else str);
            name = takeWhile isNameByte str1;
            i = length name
        in if i = 0 then None
           else if brace \<and> (i \<ge> length str1 \<or> str1 ! i \<noteq> CHR ''}'') then None
           else Some (name,
                      (if hd name = CHR ''0'' \<and> length name > 1 then - 1 else parseNum name 0),
                      (if brace then i + 2 else i)))"

text \<open>
  Submatch \<open>num\<close> of a match \<open>m = [whole, cap]\<close>; both groups of this pattern take part
  in every match.
\<close>

definition submatch :: "string list \<Rightarrow> int \<Rightarrow> string" where
  "submatch m num = (if 0 \<le> num \<and> nat num < length m then m ! nat num else [])"

fun expand :: "string \<Rightarrow> string list \<Rightarrow> string" where
  "expand [] m = []"
| "expand (c # cs) m =
     (if c \<noteq> CHR ''$'' then c # expand cs m
      else
        (case cs of
           [] \<Rightarrow> [CHR ''$'']
         | d # cs' \<Rightarrow>
             if d = CHR ''$'' then CHR ''$'' # expand cs' m
             else
               (case extract_name cs of
                  None \<Rightarrow> CHR ''$'' # expand cs m
                | Some (name, num, n) \<Rightarrow> submatch m num @ expand (drop n cs) m)))"

text \<open>
  \<^verbatim>\<open>re.ReplaceAllString(src, repl)\<close>: every match, from left to right and without
  overlap, is replaced by the expansion of \<open>repl\<close>; the search resumes where the match
  ended, \<open>length whole\<close> bytes after its start (a match of this pattern is never empty).
\<close>

fun ReplaceAllString :: "string \<Rightarrow> string \<Rightarrow> string" where
  "ReplaceAllString [] repl = []"
| "ReplaceAllString (c # cs) repl =
     (case match_here (c # cs) of
        Some (whole, cap) \<Rightarrow>
          expand repl [whole, cap] @ ReplaceAllString (drop (length whole - 1) cs) repl
      | None \<Rightarrow> c # ReplaceAllString cs repl)"

subsection \<open>The operating system\<close>

text \<open>
  An \<^verbatim>\<open>error\<close> of package \<^verbatim>\<open>os\<close>: whether \<^verbatim>\<open>os.IsNotExist\<close> holds of it, and its
  text (\<^verbatim>\<open>%v\<close>). Go's \<^verbatim>\<open>nil\<close> error is \<open>None\<close>.
\<close>

datatype os_error = OsError (notExist: bool) (errText: string)

definition IsNotExist :: "os_error option \<Rightarrow> bool" where
  "IsNotExist err = (case err of None \<Rightarrow> False | Some e \<Rightarrow> notExist e)"

text \<open>
  What the commands call, over a state \<open>'s\<close> of the machine. Reads return a value, writes
  an error and the next state. \<open>Join\<close> and \<open>Base\<close> are \<^verbatim>\<open>filepath.Join\<close> and
  \<^verbatim>\<open>filepath.Base\<close>, which depend on the platform. \<open>Elapsed\<close> is the text \<^verbatim>\<open>%.3f\<close>
  prints for the seconds since the command started. \<open>CombinedOutput\<close> runs a program with
  arguments and returns its output with its error.
\<close>

record 's sys =
  Getwd :: "'s \<Rightarrow> os_error + string"
  Stat :: "'s \<Rightarrow> string \<Rightarrow> os_error option"
  ReadFile :: "'s \<Rightarrow> string \<Rightarrow> os_error + string"
  WriteFile :: "'s \<Rightarrow> string \<Rightarrow> string \<Rightarrow> os_error option \<times> 's"
  MkdirAll :: "'s \<Rightarrow> string \<Rightarrow> os_error option \<times> 's"
  CombinedOutput :: "'s \<Rightarrow> string \<Rightarrow> string list \<Rightarrow> (string \<times> os_error option) \<times> 's"
  Join :: "string list \<Rightarrow> string"
  Base :: "string \<Rightarrow> string"
  Elapsed :: "'s \<Rightarrow> string"

text \<open>
  The places where a command ends with \<^verbatim>\<open>os.Exit(1)\<close>, named after what went wrong.
  A command returns the final state, what it printed (one string for each call of
  \<^verbatim>\<open>fmt\<close>) and \<open>None\<close> when it returned normally.
\<close>

datatype failure =
    UsageError
  | GetwdFailed
  | NotAProject
  | AlreadyExists
  | IOFailure
  | MainFileNotFound
  | InterpreterNotFound
  | ExecutionFailed

type_synonym 's outcome = "'s \<times> string list \<times> failure option"

definition final_state :: "'s outcome \<Rightarrow> 's" where
  "final_state r = fst r"

definition printed :: "'s outcome \<Rightarrow> string list" where
  "printed r = fst (snd r)"

definition failed :: "'s outcome \<Rightarrow> failure option" where
  "failed r = snd (snd r)"

definition exit_status :: "'s outcome \<Rightarrow> nat" where
  "exit_status r = (case failed r of None \<Rightarrow> 0 | Some f \<Rightarrow> 1)"

definition esc :: string where
  "esc = [CHR 0x1B]"

definition nl :: string where
  "nl = [CHR 0x0A]"

definition printUsage :: "string list" where
  "printUsage =
     [esc @ ''[32mUsage:'' @ esc @ ''[0m'' @ nl,
      ''  '' @ esc @ ''[34mnew'' @ esc @
        ''[0m [project_name]  - Create a new bituin package in a new directory'' @ nl,
      ''  '' @ esc @ ''[34minit'' @ esc @
        ''[0m [project_name] - Create a new bituin package in an existing directory'' @ nl,
      ''  '' @ esc @ ''[34madd'' @ esc @
        ''[0m [filename]      - Create a new MicroScript source file'' @ nl,
      ''  '' @ esc @ ''[34mrun'' @ esc @
        ''[0m [--preview] [filename] - Run the current project (optionally in preview mode)'' @ nl,
      nl @ esc @ ''[32mOptions:'' @ esc @ ''[0m'' @ nl,
      ''  '' @ esc @ ''[34mhelp'' @ esc @ ''[0m             - Show this help message'' @ nl,
      ''  '' @ esc @ ''[34mversion'' @ esc @ ''[0m          - Show version information'' @ nl,
      ''  '' @ esc @ ''[34mauthor'' @ esc @ ''[0m           - Show author information'' @ nl]"

subsection \<open>Creating a project\<close>

text \<open>
  Lines 61 to 83 and 233 to 278. The loop of \<^verbatim>\<open>createDirectoryStructure\<close> over
  \<^verbatim>\<open>[projectPath, projectPath/src]\<close> returns at the first error.
\<close>

fun mkdirs :: "'s sys \<Rightarrow> 's \<Rightarrow> string list \<Rightarrow> os_error option \<times> 's" where
  "mkdirs os s [] = (None, s)"
| "mkdirs os s (dir # directories) =
     (case MkdirAll os s dir of
        (Some err, s') \<Rightarrow> (Some err, s')
      | (None, s') \<Rightarrow> mkdirs os s' directories)"

definition createDirectoryStructure :: "'s sys \<Rightarrow> 's \<Rightarrow> string \<Rightarrow> os_error option \<times> 's" where
  "createDirectoryStructure os s projectPath =
     mkdirs os s [projectPath, Join os [projectPath, ''src'']]"

definition createMainMicroscript :: "'s sys \<Rightarrow> 's \<Rightarrow> string \<Rightarrow> os_error option \<times> 's" where
  "createMainMicroscript os s projectPath =
     WriteFile os s (Join os [projectPath, ''src'', ''main.microscript'']) MAIN_MICROSCRIPT"

definition createBituinConfig ::
  "'s sys \<Rightarrow> 's \<Rightarrow> string \<Rightarrow> string \<Rightarrow> os_error option \<times> 's" where
  "createBituinConfig os s projectPath projectName =
     WriteFile os s (Join os [projectPath, ''bituin.toml'']) (getBituinToml projectName)"

definition createProject :: "'s sys \<Rightarrow> 's \<Rightarrow> string \<Rightarrow> bool \<Rightarrow> 's outcome" where
  \<open>createProject os s projectName isNew =
     (case Getwd os s of
        Inl err \<Rightarrow> (s, [''Error: '' @ errText err @ nl], Some GetwdFailed)
      | Inr cwd \<Rightarrow>
          let projectPath = (if isNew then Join os [cwd, projectName] else cwd)
          in if isNew \<and> \<not> IsNotExist (Stat os s projectPath)
             then (s, [''Error: Directory "'' @ projectName @ ''" already exists.'' @ nl],
                   Some AlreadyExists)
             else
               (case createDirectoryStructure os s projectPath of
                  (Some err, s1) \<Rightarrow>
                    (s1, [''Error creating directory structure: '' @ errText err @ nl],
                     Some IOFailure)
                | (None, s1) \<Rightarrow>
                    (case createMainMicroscript os s1 projectPath of
                       (Some err, s2) \<Rightarrow>
                         (s2, [''Error creating main.microscript: '' @ errText err @ nl],
                          Some IOFailure)
                     | (None, s2) \<Rightarrow>
                         (case createBituinConfig os s2 projectPath projectName of
                            (Some err, s3) \<Rightarrow>
                              (s3, [''Error creating bituin.toml: '' @ errText err @ nl],
                               Some IOFailure)
                          | (None, s3) \<Rightarrow>
                              (s3,
                               [''Bituin project "'' @ projectName @ ''" created successfully!'' @ nl,
                                nl @ ''To get started:'' @ nl] @
                               (if isNew then [''  cd '' @ projectName @ nl] else []) @
                               [''  bituin run'' @ nl],
                               None)))))\<close>

subsection \<open>Adding a source file\<close>

text \<open>Lines 85 to 123.\<close>

definition add_template :: string where
  "add_template = ''function main() {\<newline>    // Add your code here\<newline>}\<newline>\<newline>main();''"

definition addMicroscriptFile :: "'s sys \<Rightarrow> 's \<Rightarrow> string \<Rightarrow> 's outcome" where
  "addMicroscriptFile os s filename =
     (case Getwd os s of
        Inl err \<Rightarrow> (s, [''Error: '' @ errText err @ nl], Some GetwdFailed)
      | Inr cwd \<Rightarrow>
          let bituinTomlPath = Join os [cwd, ''bituin.toml'']
          in if IsNotExist (Stat os s bituinTomlPath)
             then (s, [''Error: Not in a Bituin project directory'' @ nl], Some NotAProject)
             else
               let srcDir = Join os [cwd, ''src'']
               in (case MkdirAll os s srcDir of
                     (Some err, s1) \<Rightarrow>
                       (s1, [''Error creating src directory: '' @ errText err @ nl],
                        Some IOFailure)
                   | (None, s1) \<Rightarrow>
                       let filePath = Join os [srcDir, filename]
                       in (case WriteFile os s1 filePath add_template of
                             (Some err, s2) \<Rightarrow>
                               (s2, [''Error creating MicroScript file: '' @ errText err @ nl],
                                Some IOFailure)
                           | (None, s2) \<Rightarrow>
                               (s2,
                                [''['' @ Elapsed os s2 @ ''s] Create file: '' @ filename @ nl],
                                None))))"

subsection \<open>Running a project\<close>

text \<open>
  \<^verbatim>\<open>runProject\<close> in three parts, in the order of the source. First the scan of
  \<^verbatim>\<open>args[1:]\<close> (lines 127 to 137), which carries \<^verbatim>\<open>isPreview\<close> and \<^verbatim>\<open>targetFile\<close>.
\<close>

fun runProject_parse :: "string list \<Rightarrow> bool \<Rightarrow> string \<Rightarrow> bool \<times> string" where
  "runProject_parse [] isPreview targetFile = (isPreview, targetFile)"
| "runProject_parse (a # as) isPreview targetFile =
     (if a = PREVIEW_FLAG then runProject_parse as True targetFile
      else runProject_parse as isPreview a)"

text \<open>The replacement \<^verbatim>\<open>fmt.Sprintf(`main_file = "src/%s"`, mainFileName)\<close>.\<close>

definition main_file_assignment :: "string \<Rightarrow> string" where
  \<open>main_file_assignment mainFileName = ''main_file = "src/'' @ mainFileName @ ''"''\<close>

text \<open>
  Lines 139 to 184: the working directory, the project marker, the configuration, and
  the main file. The result is the state, and either what was printed before
  \<^verbatim>\<open>os.Exit(1)\<close>, or \<^verbatim>\<open>cwd\<close>, \<^verbatim>\<open>mainFile\<close> and \<^verbatim>\<open>mainFileName\<close>.
\<close>

definition runProject_resolve ::
  "'s sys \<Rightarrow> 's \<Rightarrow> string \<Rightarrow> 's \<times> (string list \<times> failure + string \<times> string \<times> string)" where
  "runProject_resolve os s targetFile =
     (case Getwd os s of
        Inl err \<Rightarrow> (s, Inl ([''Error: '' @ errText err @ nl], GetwdFailed))
      | Inr cwd \<Rightarrow>
          let bituinTomlPath = Join os [cwd, ''bituin.toml'']
          in if IsNotExist (Stat os s bituinTomlPath)
             then (s, Inl ([''Error: bituin.toml not found. Are you in a bituin project directory?''
                              @ nl], NotAProject))
             else
               (case ReadFile os s bituinTomlPath of
                  Inl err \<Rightarrow>
                    (s, Inl ([''Error reading bituin.toml: '' @ errText err @ nl], IOFailure))
                | Inr configContent \<Rightarrow>
                    if targetFile \<noteq> []
                    then
                      let mainFileName = targetFile;
                          mainFile = Join os [cwd, ''src'', mainFileName];
                          updatedConfig =
                            ReplaceAllString configContent (main_file_assignment mainFileName)
                      in (case WriteFile os s bituinTomlPath updatedConfig of
                            (Some err, s1) \<Rightarrow>
                              (s1, Inl ([''Error updating bituin.toml: '' @ errText err @ nl],
                                        IOFailure))
                          | (None, s1) \<Rightarrow> (s1, Inr (cwd, mainFile, mainFileName)))
                    else
                      let matches = FindStringSubmatch configContent
                      in if length matches = 0
                         then (s, Inr (cwd, Join os [cwd, ''src'', ''main.microscript''],
                                       ''main.microscript''))
                         else
                           let mainFile = Join os [cwd, matches ! 1]
                           in (s, Inr (cwd, mainFile, Base os mainFile))))"

definition executableName :: "bool \<Rightarrow> string" where
  "executableName isPreview =
     (if isPreview then ''microscript-preview.exe'' else ''microscript.exe'')"

text \<open>
  Lines 186 to 231: the main file must exist, the interpreter is looked up and run.
  The check mark of the last message is the three bytes of its UTF-8 encoding.
\<close>

definition runProject_execute ::
  "'s sys \<Rightarrow> 's \<Rightarrow> bool \<Rightarrow> string \<Rightarrow> string \<Rightarrow> string \<Rightarrow> 's outcome" where
  \<open>runProject_execute os s isPreview cwd mainFile mainFileName =
     (if IsNotExist (Stat os s mainFile)
      then (s, [''Error: Main file "'' @ mainFile @ ''" not found.'' @ nl], Some MainFileNotFound)
      else
        let running =
              (if isPreview
               then esc @ ''[90mRunning in preview mode: '' @ mainFileName @ esc @ ''[0m'' @ nl
               else esc @ ''[90mRunning: '' @ mainFileName @ esc @ ''[0m'' @ nl);
            microscriptExe = Join os [cwd, ''..'', executableName isPreview]
        in if IsNotExist (Stat os s microscriptExe)
           then (s, [running,
                     ''Error: '' @ executableName isPreview @ '' not found in parent directory.''
                       @ nl],
                 Some InterpreterNotFound)
           else
             (case CombinedOutput os s microscriptExe [''run'', mainFile] of
                ((output, Some err), s1) \<Rightarrow>
                  (s1,
                   [running,
                    esc @ ''[91m['' @ Elapsed os s1 @ ''s] Error: execution failed'' @ esc @ ''[0m''
                      @ nl] @
                   (if length output > 0 then [output] else []),
                   Some ExecutionFailed)
              | ((output, None), s1) \<Rightarrow>
                  (s1,
                   [running,
                    esc @ ''[90m['' @ Elapsed os s1 @ ''s] Success: '' @ mainFileName @ '' ('' @
                      (if \<not> isPreview then ''regular'' else ''preview'') @ '' mode)'' @ esc @
                      ''[0m'' @ nl,
                    esc @ ''[32m'' @ [CHR 0xE2, CHR 0x9C, CHR 0x93] @ esc @
                      ''[0m Project executed successfully!'' @ nl,
                    nl] @
                   (if length output > 0 then [output] else []),
                   None)))\<close>

definition runProject :: "'s sys \<Rightarrow> 's \<Rightarrow> string list \<Rightarrow> 's outcome" where
  "runProject os s args =
     (case runProject_parse (drop 1 args) False [] of
        (isPreview, targetFile) \<Rightarrow>
          (case runProject_resolve os s targetFile of
             (s1, Inl (out, f)) \<Rightarrow> (s1, out, Some f)
           | (s1, Inr (cwd, mainFile, mainFileName)) \<Rightarrow>
               runProject_execute os s1 isPreview cwd mainFile mainFileName))"

subsection \<open>The command dispatcher\<close>

text \<open>
  Lines 280 to 325: \<open>main os s args\<close> with \<open>args\<close> the command line after the program
  name (\<^verbatim>\<open>os.Args[1:]\<close>). The cases of the \<^verbatim>\<open>switch\<close> are tried in their order.
\<close>

definition main :: "'s sys \<Rightarrow> 's \<Rightarrow> string list \<Rightarrow> 's outcome" where
  "main os s args =
     (if length args = 0 then (s, printUsage, Some UsageError)
      else
        let command = hd args
        in if command = HELP then (s, printUsage, None)
           else if command = VERSION_CMD then (s, [VERSION @ nl], None)
           else if command = AUTHOR_CMD then (s, [AUTHOR @ nl], None)
           else if command = NEW then
             (if length args < 2
              then (s, [''Error: Project name required for new command'' @ nl] @ printUsage,
                    Some UsageError)
              else createProject os s (args ! 1) True)
           else if command = INIT then
             (if length args < 2
              then (s, [''Error: Project name required for init command'' @ nl] @ printUsage,
                    Some UsageError)
              else createProject os s (args ! 1) False)
           else if command = ADD then
             (if length args < 2
              then (s, [''Error: File name required for add command'' @ nl] @ printUsage,
                    Some UsageError)
              else addMicroscriptFile os s (args ! 1))
           else if command = RUN then runProject os s args
           else (s, [''Unknown command: '' @ command @ nl] @ printUsage, Some UsageError))"

subsection \<open>A small machine for examples\<close>

text \<open>
  A machine to run the commands on: a working directory and a table from paths to
  files and directories. Paths are joined with a slash and not cleaned, directories are
  not checked for parents, the interpreter prints a greeting. The theorems are about
  every machine; this one is where their hypotheses are met.
\<close>

datatype entry = File string | Dir

record machine =
  cwd_of :: string
  entries :: "(string \<times> entry) list"

fun put :: "string \<Rightarrow> entry \<Rightarrow> (string \<times> entry) list \<Rightarrow> (string \<times> entry) list" where
  "put p e [] = [(p, e)]"
| "put p e ((q, f) # t) = (if p = q then (p, e) # t else (q, f) # put p e t)"

fun joinPath :: "string list \<Rightarrow> string" where
  "joinPath [] = []"
| "joinPath [p] = p"
| "joinPath (p # q # ps) = p @ ''/'' @ joinPath (q # ps)"

definition basePath :: "string \<Rightarrow> string" where
  "basePath p = rev (takeWhile (\<lambda>c. c \<noteq> CHR ''/'') (rev p))"

definition machine_sys :: "machine sys" where
  "machine_sys =
     \<lparr> Getwd = (\<lambda>m. Inr (cwd_of m)),
       Stat = (\<lambda>m p. case map_of (entries m) p of
                        None \<Rightarrow> Some (OsError True ''no such file or directory'')
                      | Some e \<Rightarrow> None),
       ReadFile = (\<lambda>m p. case map_of (entries m) p of
                            None \<Rightarrow> Inl (OsError True ''no such file or directory'')
                          | Some Dir \<Rightarrow> Inl (OsError False ''is a directory'')
                          | Some (File text) \<Rightarrow> Inr text),
       WriteFile = (\<lambda>m p text. case map_of (entries m) p of
                                  Some Dir \<Rightarrow> (Some (OsError False ''is a directory''), m)
                                | _ \<Rightarrow> (None, m\<lparr>entries := put p (File text) (entries m)\<rparr>)),
       MkdirAll = (\<lambda>m p. case map_of (entries m) p of
                            Some (File text) \<Rightarrow> (Some (OsError False ''not a directory''), m)
                          | _ \<Rightarrow> (None, m\<lparr>entries := put p Dir (entries m)\<rparr>)),
       CombinedOutput = (\<lambda>m exe args. ((''Hello, World!'', None), m)),
       Join = joinPath,
       Base = basePath,
       Elapsed = (\<lambda>m. ''0.001'') \<rparr>"

text \<open>A project \<^verbatim>\<open>demo\<close> in \<^verbatim>\<open>/w/demo\<close>, made by \<^verbatim>\<open>new demo\<close>, with the interpreter beside it.\<close>

definition demo_project :: machine where
  "demo_project =
     \<lparr> cwd_of = ''/w/demo'',
       entries = [(''/w/demo'', Dir), (''/w/demo/src'', Dir),
                  (''/w/demo/src/main.microscript'', File MAIN_MICROSCRIPT),
                  (''/w/demo/bituin.toml'', File (getBituinToml ''demo'')),
                  (''/w/demo/../microscript.exe'', File [])] \<rparr>"

text \<open>
  A project whose configuration has no \<^verbatim>\<open>main_file\<close> line. A copy of the interpreter
  lies in the project directory, none in the parent directory.
\<close>

definition bare_project :: machine where
  \<open>bare_project =
     \<lparr> cwd_of = ''/w/bare'',
       entries = [(''/w/bare/bituin.toml'', File ''[package]\<newline>name = "bare"''),
                  (''/w/bare/src/main.microscript'', File MAIN_MICROSCRIPT),
                  (''/w/bare/microscript.exe'', File [])] \<rparr>\<close>

text \<open>A directory that is no project.\<close>

definition plain_directory :: machine where
  "plain_directory = \<lparr> cwd_of = ''/w'', entries = [(''/w'', Dir)] \<rparr>"

subsection \<open>The language of the pattern\<close>

text \<open>
  What the pattern denotes, read off the regular expression: \<open>pattern_head\<close> is
  \<^verbatim>\<open>main_file\s*=\s*\<close>, and \<open>pattern_match w cap\<close> says that \<open>w\<close> is a head, a quote, the
  non-empty quote-free \<open>cap\<close>, and a quote.
\<close>

definition pattern_head :: "string \<Rightarrow> bool" where
  "pattern_head h \<longleftrightarrow>
     (\<exists>ws1 ws2. h = ''main_file'' @ ws1 @ ''='' @ ws2 \<and>
                list_all isSpace ws1 \<and> list_all isSpace ws2)"

definition pattern_match :: "string \<Rightarrow> string \<Rightarrow> bool" where
  "pattern_match w cap \<longleftrightarrow>
     (\<exists>h. pattern_head h \<and> cap \<noteq> [] \<and> list_all notQuote cap \<and>
          w = h @ [CHR 0x22] @ cap @ [CHR 0x22])"

text \<open>
  What the successive matches of a text captured, from left to right and without overlap
  (the values of all its \<^verbatim>\<open>main_file\<close> assignments).
\<close>

fun all_captures :: "string \<Rightarrow> string list" where
  "all_captures [] = []"
| "all_captures (c # cs) =
     (case match_here (c # cs) of
        Some (whole, cap) \<Rightarrow> cap # all_captures (drop (length whole - 1) cs)
      | None \<Rightarrow> all_captures cs)"

section \<open>The matcher against the language of the pattern\<close>

lemma stripPrefix_Some: "stripPrefix p s = Some r \<longleftrightarrow> s = p @ r"
proof (induction p arbitrary: s)
  case Nil
  show ?case by auto
next
  case (Cons a p)
  show ?case by (cases s) (auto simp: Cons.IH)
qed

lemma takeWhile_stop:
  "list_all P u \<Longrightarrow> \<not> P x \<Longrightarrow> takeWhile P (u @ x # v) = u"
  by (induction u) auto

lemma dropWhile_stop:
  "list_all P u \<Longrightarrow> \<not> P x \<Longrightarrow> dropWhile P (u @ x # v) = x # v"
  by (induction u) auto

lemma list_all_takeWhile: "list_all P (takeWhile P xs)"
  by (induction xs) auto

text \<open>Every word of the language, followed by anything, is matched as that word.\<close>

lemma match_here_complete:
  assumes "pattern_match w cap"
  shows "match_here (w @ rest) = Some (w, cap)"
proof -
  from assms obtain ws1 ws2 where
    w: "w = ''main_file'' @ ws1 @ ''='' @ ws2 @ [CHR 0x22] @ cap @ [CHR 0x22]"
    and s1: "list_all isSpace ws1" and s2: "list_all isSpace ws2"
    and c: "cap \<noteq> []" "list_all notQuote cap"
    by (auto simp: pattern_match_def pattern_head_def)
  have p: "stripPrefix ''main_file'' (w @ rest) =
             Some (ws1 @ CHR ''='' # ws2 @ CHR 0x22 # cap @ CHR 0x22 # rest)"
    by (simp add: stripPrefix_Some w)
  have e: "\<not> isSpace (CHR ''='')" "\<not> isSpace (CHR 0x22)" "\<not> notQuote (CHR 0x22)"
    by (simp_all add: isSpace_def notQuote_def)
  show ?thesis
    unfolding match_here_def p
    by (simp add: takeWhile_stop dropWhile_stop s1 s2 c e w)
qed

text \<open>What the matcher returns is a word of the language and a prefix of the input.\<close>

lemma match_here_sound:
  assumes "match_here s = Some (w, cap)"
  shows "pattern_match w cap \<and> (\<exists>rest. s = w @ rest)"
proof -
  from assms obtain s1 s2 s3 rest where
    a: "stripPrefix ''main_file'' s = Some s1"
    and b: "dropWhile isSpace s1 = CHR ''='' # s2"
    and c: "dropWhile isSpace s2 = CHR 0x22 # s3"
    and d: "dropWhile notQuote s3 = CHR 0x22 # rest"
    and e: "takeWhile notQuote s3 \<noteq> []"
    and w: "w = ''main_file'' @ takeWhile isSpace s1 @ ''='' @ takeWhile isSpace s2 @
               [CHR 0x22] @ takeWhile notQuote s3 @ [CHR 0x22]"
    and cap: "cap = takeWhile notQuote s3"
    apply (simp add: match_here_def split: option.splits list.splits if_splits)
    apply (metis dropWhile_eq_Cons_conv notQuote_def)
    done
  have "s = ''main_file'' @ s1" using a by (simp add: stripPrefix_Some)
  moreover have "s1 = takeWhile isSpace s1 @ CHR ''='' # s2"
    using b by (metis takeWhile_dropWhile_id)
  moreover have "s2 = takeWhile isSpace s2 @ CHR 0x22 # s3"
    using c by (metis takeWhile_dropWhile_id)
  moreover have "s3 = takeWhile notQuote s3 @ CHR 0x22 # rest"
    using d by (metis takeWhile_dropWhile_id)
  ultimately have "s = w @ rest"
    unfolding w by (metis append.assoc append_Cons append_Nil)
  moreover have "pattern_match w cap"
    unfolding pattern_match_def pattern_head_def w cap
    using e list_all_takeWhile [of isSpace] list_all_takeWhile [of notQuote]
    by (intro exI [of _ "''main_file'' @ takeWhile isSpace s1 @ ''='' @ takeWhile isSpace s2"]
        conjI exI [of _ "takeWhile isSpace s1"] exI [of _ "takeWhile isSpace s2"]) simp_all
  ultimately show ?thesis by blast
qed

lemma match_here_iff:
  "match_here s = Some (w, cap) \<longleftrightarrow> pattern_match w cap \<and> (\<exists>rest. s = w @ rest)"
  using match_here_sound match_here_complete by blast

text \<open>
  At one start position the pattern has at most one match, so the leftmost match is
  the one Go's leftmost-first search returns.
\<close>

lemma pattern_match_unique:
  assumes "pattern_match w cap" and "pattern_match w' cap'" and "w @ r = w' @ r'"
  shows "w = w' \<and> cap = cap'"
  using match_here_complete [OF assms(1), of r] match_here_complete [OF assms(2), of r'] assms(3)
  by simp

lemma pattern_match_nonempty: "pattern_match w cap \<Longrightarrow> w \<noteq> []"
  by (auto simp: pattern_match_def)

lemma FindStringSubmatch_match:
  "match_here s = Some (w, cap) \<Longrightarrow> FindStringSubmatch s = [w, cap]"
  by (cases s) (auto simp: match_here_def)

text \<open>\<open>FindStringSubmatch\<close> returns nothing exactly when no word of the language occurs.\<close>

lemma FindStringSubmatch_occurrence:
  "pattern_match w cap \<Longrightarrow> FindStringSubmatch (pre @ w @ rest) \<noteq> []"
proof (induction pre)
  case Nil
  then show ?case
    using match_here_complete [of w cap rest] by (simp add: FindStringSubmatch_match)
next
  case (Cons c pre)
  then show ?case by (auto split: option.splits)
qed

lemma FindStringSubmatch_found:
  "FindStringSubmatch s \<noteq> [] \<Longrightarrow> \<exists>pre w cap rest. s = pre @ w @ rest \<and> pattern_match w cap"
proof (induction s)
  case Nil
  then show ?case by simp
next
  case (Cons c cs)
  show ?case
  proof (cases "match_here (c # cs)")
    case None
    with Cons obtain pre w cap rest where "cs = pre @ w @ rest" "pattern_match w cap"
      by auto
    then have "c # cs = (c # pre) @ w @ rest \<and> pattern_match w cap" by simp
    then show ?thesis by blast
  next
    case (Some p)
    obtain w cap where "p = (w, cap)" by (cases p)
    with Some match_here_sound obtain rest where "pattern_match w cap" "c # cs = w @ rest"
      by blast
    then have "c # cs = [] @ w @ rest \<and> pattern_match w cap" by simp
    then show ?thesis by blast
  qed
qed

lemma FindStringSubmatch_empty_iff:
  "FindStringSubmatch s = [] \<longleftrightarrow>
     \<not> (\<exists>pre w cap rest. s = pre @ w @ rest \<and> pattern_match w cap)"
  using FindStringSubmatch_occurrence FindStringSubmatch_found by blast

section \<open>Rewriting the configuration\<close>

lemma no_match_ReplaceAllString:
  "FindStringSubmatch src = [] \<Longrightarrow> ReplaceAllString src repl = src"
  by (induction src) (auto split: option.splits)

lemma expand_literal: "CHR ''$'' \<notin> set t \<Longrightarrow> expand t m = t"
  by (induction t) auto

lemma assignment_no_dollar:
  "CHR ''$'' \<notin> set F \<Longrightarrow> CHR ''$'' \<notin> set (main_file_assignment F)"
  by (simp add: main_file_assignment_def)

lemma assignment_pattern_match:
  assumes "CHR 0x22 \<notin> set F"
  shows "pattern_match (main_file_assignment F) (''src/'' @ F)"
proof -
  have "pattern_head ''main_file = ''"
    unfolding pattern_head_def
    by (intro exI [of _ "'' ''"] conjI) (simp_all add: isSpace_def)
  moreover have "list_all notQuote (''src/'' @ F)"
    using assms by (auto simp: notQuote_def list_all_iff)
  moreover have
    "main_file_assignment F = ''main_file = '' @ [CHR 0x22] @ (''src/'' @ F) @ [CHR 0x22]"
    by (simp add: main_file_assignment_def)
  ultimately show ?thesis unfolding pattern_match_def by blast
qed

lemma ReplaceAllString_match:
  assumes "match_here s = Some (w, cap)"
  shows "\<exists>rest. s = w @ rest \<and>
           ReplaceAllString s repl = expand repl [w, cap] @ ReplaceAllString rest repl"
proof -
  from assms obtain rest where w: "pattern_match w cap" and s: "s = w @ rest"
    using match_here_sound by blast
  from w have "w \<noteq> []" by (rule pattern_match_nonempty)
  then obtain c w' where c: "w = c # w'" by (cases w) auto
  have "ReplaceAllString s repl = expand repl [w, cap] @ ReplaceAllString rest repl"
    using assms unfolding s c by simp
  with s show ?thesis by blast
qed

text \<open>Heads hold no quote, and the letter m only in front.\<close>

lemma isSpace_notQuote: "isSpace c \<Longrightarrow> notQuote c"
  by (auto simp: isSpace_def notQuote_def)

lemma isSpace_not_m: "isSpace c \<Longrightarrow> c \<noteq> CHR ''m''"
  by (auto simp: isSpace_def)

lemma spaces_notQuote: "list_all isSpace ws \<Longrightarrow> list_all notQuote ws"
  by (induction ws) (simp_all add: isSpace_notQuote)

lemma spaces_no_m: "list_all isSpace ws \<Longrightarrow> CHR ''m'' \<notin> set ws"
  by (induction ws) (auto dest: isSpace_not_m)

lemma pattern_head_notQuote: "pattern_head h \<Longrightarrow> list_all notQuote h"
proof -
  assume "pattern_head h"
  then obtain ws1 ws2 where h: "h = ''main_file'' @ ws1 @ ''='' @ ws2"
    and s: "list_all isSpace ws1" "list_all isSpace ws2"
    unfolding pattern_head_def by blast
  have "list_all notQuote ''main_file''" "list_all notQuote ''=''"
    by (simp_all add: notQuote_def)
  with s show ?thesis unfolding h by (simp only: list_all_append spaces_notQuote)
qed

lemma pattern_head_m:
  "pattern_head h \<Longrightarrow> \<exists>t. h = CHR ''m'' # t \<and> CHR ''m'' \<notin> set t"
proof -
  assume "pattern_head h"
  then obtain ws1 ws2 where h: "h = ''main_file'' @ ws1 @ ''='' @ ws2"
    and s: "list_all isSpace ws1" "list_all isSpace ws2"
    unfolding pattern_head_def by blast
  have "h = CHR ''m'' # (''ain_file'' @ ws1 @ ''='' @ ws2)" unfolding h by simp
  moreover have "CHR ''m'' \<notin> set (''ain_file'' @ ws1 @ ''='' @ ws2)"
    using s [THEN spaces_no_m] by simp
  ultimately show ?thesis by blast
qed

lemma pattern_head_append:
  assumes "pattern_head (a @ h)" and "pattern_head h"
  shows "a = []"
proof (rule ccontr)
  assume "a \<noteq> []"
  then obtain x a' where a: "a = x # a'" by (cases a) auto
  from pattern_head_m [OF assms(1)] obtain t where
    t: "a @ h = CHR ''m'' # t" "CHR ''m'' \<notin> set t"
    by blast
  from pattern_head_m [OF assms(2)] obtain t' where t': "h = CHR ''m'' # t'" by blast
  from t(1) a t' have "t = a' @ CHR ''m'' # t'" by simp
  with t(2) show False by simp
qed

lemma match_here_not_None:
  "match_here s \<noteq> None \<longleftrightarrow>
     (\<exists>h cap rest. pattern_head h \<and> cap \<noteq> [] \<and> list_all notQuote cap \<and>
        s = h @ CHR 0x22 # cap @ CHR 0x22 # rest)"
proof
  assume "match_here s \<noteq> None"
  then obtain w cap where "match_here s = Some (w, cap)" by auto
  then obtain h rest where "pattern_head h" "cap \<noteq> []" "list_all notQuote cap"
    "s = h @ CHR 0x22 # cap @ CHR 0x22 # rest"
    by (auto simp: match_here_iff pattern_match_def)
  then show "\<exists>h cap rest. pattern_head h \<and> cap \<noteq> [] \<and> list_all notQuote cap \<and>
      s = h @ CHR 0x22 # cap @ CHR 0x22 # rest"
    by blast
next
  assume "\<exists>h cap rest. pattern_head h \<and> cap \<noteq> [] \<and> list_all notQuote cap \<and>
      s = h @ CHR 0x22 # cap @ CHR 0x22 # rest"
  then obtain h cap rest where h: "pattern_head h" "cap \<noteq> []" "list_all notQuote cap"
    and s: "s = h @ CHR 0x22 # cap @ CHR 0x22 # rest" by blast
  have "pattern_match (h @ [CHR 0x22] @ cap @ [CHR 0x22]) cap"
    using h by (auto simp: pattern_match_def)
  from match_here_complete [OF this, of rest] show "match_here s \<noteq> None"
    by (simp add: s)
qed

lemma split_at_quote:
  "\<not> list_all notQuote a \<Longrightarrow> \<exists>a1 a2. a = a1 @ CHR 0x22 # a2 \<and> list_all notQuote a1"
proof (induction a)
  case Nil
  then show ?case by simp
next
  case (Cons x a)
  show ?case
  proof (cases "notQuote x")
    case True
    with Cons obtain a1 a2 where "a = a1 @ CHR 0x22 # a2" "list_all notQuote a1" by auto
    with True have "x # a = (x # a1) @ CHR 0x22 # a2 \<and> list_all notQuote (x # a1)" by simp
    then show ?thesis by blast
  next
    case False
    then have "x # a = [] @ CHR 0x22 # a \<and> list_all notQuote []" by (simp add: notQuote_def)
    then show ?thesis by blast
  qed
qed

lemma quote_split_unique:
  assumes "u @ CHR 0x22 # v = u' @ CHR 0x22 # v'"
    and "list_all notQuote u" and "list_all notQuote u'"
  shows "u = u' \<and> v = v'"
proof -
  have nq: "\<not> notQuote (CHR 0x22)" by (simp add: notQuote_def)
  have "takeWhile notQuote (u @ CHR 0x22 # v) = u"
    "dropWhile notQuote (u @ CHR 0x22 # v) = CHR 0x22 # v"
    using assms(2) nq by (simp_all add: takeWhile_stop dropWhile_stop)
  moreover have "takeWhile notQuote (u' @ CHR 0x22 # v') = u'"
    "dropWhile notQuote (u' @ CHR 0x22 # v') = CHR 0x22 # v'"
    using assms(3) nq by (simp_all add: takeWhile_stop dropWhile_stop)
  ultimately show ?thesis using assms(1) by simp
qed

text \<open>
  Putting one match in the place of another does not change whether the text matches
  at an earlier position: the quotes stay where they were, and a head cannot begin
  before another head and end with it.
\<close>

lemma match_here_subst:
  assumes w: "pattern_match w cap" and w': "pattern_match w' cap'"
    and m: "match_here (a @ w' @ r) \<noteq> None"
  shows "match_here (a @ w @ r) \<noteq> None"
proof -
  from w obtain h where h: "pattern_head h" "cap \<noteq> []" "list_all notQuote cap"
    "w = h @ CHR 0x22 # cap @ [CHR 0x22]" by (auto simp: pattern_match_def)
  from w' obtain h' where h': "pattern_head h'" "cap' \<noteq> []" "list_all notQuote cap'"
    "w' = h' @ CHR 0x22 # cap' @ [CHR 0x22]" by (auto simp: pattern_match_def)
  from m obtain H C rest where H: "pattern_head H" "C \<noteq> []" "list_all notQuote C"
    and eq: "a @ w' @ r = H @ CHR 0x22 # C @ CHR 0x22 # rest"
    unfolding match_here_not_None by blast
  have Hnq: "list_all notQuote H" using H(1) by (rule pattern_head_notQuote)
  have hnq: "list_all notQuote h" using h(1) by (rule pattern_head_notQuote)
  have h'nq: "list_all notQuote h'" using h'(1) by (rule pattern_head_notQuote)
  show ?thesis
  proof (cases "list_all notQuote a")
    case True
    have "(a @ h') @ CHR 0x22 # (cap' @ CHR 0x22 # r) = H @ CHR 0x22 # (C @ CHR 0x22 # rest)"
      using eq h'(4) by simp
    from quote_split_unique [OF this] True h'nq Hnq have "a @ h' = H" by simp
    with H(1) h'(1) have "a = []" using pattern_head_append by blast
    then show ?thesis using match_here_complete [OF w, of r] by simp
  next
    case False
    then obtain a1 a2 where a: "a = a1 @ CHR 0x22 # a2" "list_all notQuote a1"
      using split_at_quote by blast
    have "a1 @ CHR 0x22 # (a2 @ w' @ r) = H @ CHR 0x22 # (C @ CHR 0x22 # rest)"
      using eq a(1) by simp
    from quote_split_unique [OF this a(2) Hnq]
    have a1: "a1 = H" and rest: "a2 @ w' @ r = C @ CHR 0x22 # rest" by simp_all
    have "\<exists>C2 rest2. C2 \<noteq> [] \<and> list_all notQuote C2 \<and> a2 @ w @ r = C2 @ CHR 0x22 # rest2"
    proof (cases "list_all notQuote a2")
      case True
      have "a2 @ w @ r = (a2 @ h) @ CHR 0x22 # (cap @ CHR 0x22 # r)" using h(4) by simp
      moreover have "a2 @ h \<noteq> []" using pattern_head_m [OF h(1)] by auto
      moreover have "list_all notQuote (a2 @ h)" using True hnq by simp
      ultimately show ?thesis by blast
    next
      case False
      then obtain b1 b2 where b: "a2 = b1 @ CHR 0x22 # b2" "list_all notQuote b1"
        using split_at_quote by blast
      have "b1 @ CHR 0x22 # (b2 @ w' @ r) = C @ CHR 0x22 # rest" using rest b(1) by simp
      from quote_split_unique [OF this b(2) H(3)] have "b1 = C" by simp
      with H(2) b have
        "b1 \<noteq> [] \<and> list_all notQuote b1 \<and> a2 @ w @ r = b1 @ CHR 0x22 # (b2 @ w @ r)"
        by simp
      then show ?thesis by blast
    qed
    then obtain C2 rest2 where C2: "C2 \<noteq> []" "list_all notQuote C2"
      "a2 @ w @ r = C2 @ CHR 0x22 # rest2" by blast
    have "a @ w @ r = H @ CHR 0x22 # C2 @ CHR 0x22 # rest2"
      using a(1) a1 C2(3) by simp
    with H(1) C2(1,2) show ?thesis unfolding match_here_not_None by blast
  qed
qed

text \<open>A position that matches after the rewrite matched before it.\<close>

lemma match_survives_rewrite:
  assumes F: "CHR ''$'' \<notin> set F" "CHR 0x22 \<notin> set F"
  shows "match_here (a @ ReplaceAllString s (main_file_assignment F)) \<noteq> None
         \<Longrightarrow> match_here (a @ s) \<noteq> None"
proof (induction s arbitrary: a rule: length_induct)
  case (1 s)
  let ?N = "main_file_assignment F"
  show ?case
  proof (cases s)
    case Nil
    with 1 show ?thesis by simp
  next
    case (Cons c cs)
    show ?thesis
    proof (cases "match_here s")
      case None
      then have "ReplaceAllString s ?N = c # ReplaceAllString cs ?N"
        by (simp add: Cons)
      with 1(2) have "match_here ((a @ [c]) @ ReplaceAllString cs ?N) \<noteq> None" by simp
      moreover have "length cs < length s" by (simp add: Cons)
      ultimately have "match_here ((a @ [c]) @ cs) \<noteq> None" using 1(1) by blast
      then show ?thesis by (simp add: Cons)
    next
      case (Some p)
      obtain w cap where p: "p = (w, cap)" by (cases p)
      from Some p have m: "match_here s = Some (w, cap)" by simp
      from ReplaceAllString_match [OF m, of ?N] obtain rest where
        s: "s = w @ rest" and
        r: "ReplaceAllString s ?N = expand ?N [w, cap] @ ReplaceAllString rest ?N" by blast
      have w: "pattern_match w cap" using m match_here_sound by blast
      have e: "expand ?N [w, cap] = ?N"
        using F(1) by (simp add: expand_literal assignment_no_dollar)
      have "length rest < length s" using s pattern_match_nonempty [OF w] by simp
      moreover have "match_here ((a @ ?N) @ ReplaceAllString rest ?N) \<noteq> None"
        using 1(2) r e by simp
      ultimately have "match_here ((a @ ?N) @ rest) \<noteq> None" using 1(1) by blast
      then have "match_here (a @ ?N @ rest) \<noteq> None" by simp
      from match_here_subst [OF w assignment_pattern_match [OF F(2)] this]
      show ?thesis by (simp add: s)
    qed
  qed
qed

text \<open>
  Rewriting and reading back: when the file name holds no dollar and no quote, and the
  text has an assignment, the first assignment of the rewritten text is the new one.
\<close>

lemma rewrite_then_read:
  assumes F: "CHR ''$'' \<notin> set F" "CHR 0x22 \<notin> set F"
  shows "FindStringSubmatch s \<noteq> [] \<Longrightarrow>
         FindStringSubmatch (ReplaceAllString s (main_file_assignment F)) =
           [main_file_assignment F, ''src/'' @ F]"
proof (induction s rule: length_induct)
  case (1 s)
  let ?N = "main_file_assignment F"
  from 1(2) obtain c cs where Cons: "s = c # cs" by (cases s) auto
  show ?case
  proof (cases "match_here s")
    case None
    then have r: "ReplaceAllString s ?N = c # ReplaceAllString cs ?N"
      by (simp add: Cons)
    from None 1(2) have "FindStringSubmatch cs \<noteq> []" by (simp add: Cons)
    then have ih: "FindStringSubmatch (ReplaceAllString cs ?N) = [?N, ''src/'' @ F]"
      using 1(1) by (simp add: Cons)
    have "match_here ([c] @ ReplaceAllString cs ?N) = None"
    proof (rule ccontr)
      assume "match_here ([c] @ ReplaceAllString cs ?N) \<noteq> None"
      from match_survives_rewrite [OF F this] None show False by (simp add: Cons)
    qed
    then show ?thesis by (simp add: r ih)
  next
    case (Some p)
    obtain w cap where p: "p = (w, cap)" by (cases p)
    from Some p have m: "match_here s = Some (w, cap)" by simp
    from ReplaceAllString_match [OF m, of ?N] obtain rest where
      r: "ReplaceAllString s ?N = expand ?N [w, cap] @ ReplaceAllString rest ?N" by blast
    have e: "expand ?N [w, cap] = ?N"
      using F(1) by (simp add: expand_literal assignment_no_dollar)
    have "match_here (?N @ ReplaceAllString rest ?N) = Some (?N, ''src/'' @ F)"
      using assignment_pattern_match [OF F(2)] by (rule match_here_complete)
    then show ?thesis by (simp add: r e FindStringSubmatch_match)
  qed
qed

lemma all_captures_match:
  assumes "match_here s = Some (w, cap)"
  shows "\<exists>rest. s = w @ rest \<and> all_captures s = cap # all_captures rest"
proof -
  from assms obtain rest where w: "pattern_match w cap" and s: "s = w @ rest"
    using match_here_sound by blast
  from w have "w \<noteq> []" by (rule pattern_match_nonempty)
  then obtain c w' where c: "w = c # w'" by (cases w) auto
  have "all_captures s = cap # all_captures rest"
    using assms unfolding s c by simp
  with s show ?thesis by blast
qed

text \<open>
  Every assignment is rewritten, not the first one only: after the rewrite each of them
  holds the new path, and there are as many as before.
\<close>

lemma rewrite_every_assignment:
  assumes F: "CHR ''$'' \<notin> set F" "CHR 0x22 \<notin> set F"
  shows "all_captures (ReplaceAllString s (main_file_assignment F)) =
           map (\<lambda>cap. ''src/'' @ F) (all_captures s)"
proof (induction s rule: length_induct)
  case (1 s)
  let ?N = "main_file_assignment F"
  show ?case
  proof (cases s)
    case Nil
    then show ?thesis by simp
  next
    case (Cons c cs)
    show ?thesis
    proof (cases "match_here s")
      case None
      then have r: "ReplaceAllString s ?N = c # ReplaceAllString cs ?N"
        by (simp add: Cons)
      have "match_here ([c] @ ReplaceAllString cs ?N) = None"
      proof (rule ccontr)
        assume "match_here ([c] @ ReplaceAllString cs ?N) \<noteq> None"
        from match_survives_rewrite [OF F this] None show False by (simp add: Cons)
      qed
      moreover have "all_captures (ReplaceAllString cs ?N) =
                       map (\<lambda>cap. ''src/'' @ F) (all_captures cs)"
        using 1 by (simp add: Cons)
      ultimately show ?thesis using None by (simp add: r Cons)
    next
      case (Some p)
      obtain w cap where p: "p = (w, cap)" by (cases p)
      from Some p have m: "match_here s = Some (w, cap)" by simp
      from ReplaceAllString_match [OF m, of ?N] obtain rest where
        s: "s = w @ rest" and
        r: "ReplaceAllString s ?N = expand ?N [w, cap] @ ReplaceAllString rest ?N" by blast
      from all_captures_match [OF m] s have a: "all_captures s = cap # all_captures rest"
        by auto
      have w: "pattern_match w cap" using m match_here_sound by blast
      have e: "expand ?N [w, cap] = ?N"
        using F(1) by (simp add: expand_literal assignment_no_dollar)
      have "length rest < length s" using s pattern_match_nonempty [OF w] by simp
      then have ih: "all_captures (ReplaceAllString rest ?N) =
                       map (\<lambda>cap. ''src/'' @ F) (all_captures rest)"
        using 1 by blast
      have "match_here (?N @ ReplaceAllString rest ?N) = Some (?N, ''src/'' @ F)"
        using assignment_pattern_match [OF F(2)] by (rule match_here_complete)
      from all_captures_match [OF this] have
        "all_captures (?N @ ReplaceAllString rest ?N) =
           (''src/'' @ F) # all_captures (ReplaceAllString rest ?N)"
        by auto
      then show ?thesis by (simp add: r e a ih)
    qed
  qed
qed

section \<open>The commands\<close>

lemmas command_names = NEW_def INIT_def RUN_def ADD_def HELP_def VERSION_CMD_def AUTHOR_CMD_def

lemmas machine_simps = machine_sys_def IsNotExist_def

lemma runProject_parse_eq:
  "runProject_parse as isPreview targetFile =
     (isPreview \<or> PREVIEW_FLAG \<in> set as,
      case filter (\<lambda>a. a \<noteq> PREVIEW_FLAG) as of [] \<Rightarrow> targetFile | x # xs \<Rightarrow> last (x # xs))"
  by (induction as arbitrary: isPreview targetFile) (auto split: list.splits)

lemma runProject_resolve_no_usage:
  "runProject_resolve os s t = (s1, Inl (out, f)) \<Longrightarrow> f \<noteq> UsageError"
  by (auto simp: runProject_resolve_def Let_def
      split: sum.splits if_splits prod.splits option.splits)

lemma runProject_execute_no_usage:
  "failed (runProject_execute os s p cwd mf mfn) \<noteq> Some UsageError"
  by (auto simp: runProject_execute_def Let_def failed_def split: prod.splits option.splits)

text \<open>
  C1, as amended. \<^verbatim>\<open>run\<close> with a target file name \<open>F\<close> that holds no dollar and no
  quote, in a project whose configuration has a \<^verbatim>\<open>main_file\<close> assignment: once the
  rewritten configuration is written, the rest of the command (the check that the main
  file exists, the lookup of the interpreter, the child process) runs in the state
  \<open>s1\<close> that the write left. If \<^verbatim>\<open>src/F\<close> does not exist the command ends there with
  the state \<open>s1\<close>, and the text that was written reads back as \<^verbatim>\<open>src/F\<close>.
\<close>

theorem run_target_rewrites_config_first:
  assumes "runProject_parse (drop 1 args) False [] = (isPreview, F)"
    and "F \<noteq> []"
    and "Getwd os s = Inr cwd"
    and "\<not> IsNotExist (Stat os s (Join os [cwd, ''bituin.toml'']))"
    and "ReadFile os s (Join os [cwd, ''bituin.toml'']) = Inr configContent"
    and "WriteFile os s (Join os [cwd, ''bituin.toml''])
           (ReplaceAllString configContent (main_file_assignment F)) = (None, s1)"
    and "FindStringSubmatch configContent \<noteq> []"
    and "CHR ''$'' \<notin> set F"
    and "CHR 0x22 \<notin> set F"
  shows \<open>runProject os s args =
           runProject_execute os s1 isPreview cwd (Join os [cwd, ''src'', F]) F
    \<and> (IsNotExist (Stat os s1 (Join os [cwd, ''src'', F])) \<longrightarrow>
         runProject os s args =
           (s1, [''Error: Main file "'' @ Join os [cwd, ''src'', F] @ ''" not found.'' @ nl],
            Some MainFileNotFound))
    \<and> FindStringSubmatch (ReplaceAllString configContent (main_file_assignment F)) =
         [main_file_assignment F, ''src/'' @ F]\<close>
proof -
  have a: "runProject os s args =
             runProject_execute os s1 isPreview cwd (Join os [cwd, ''src'', F]) F"
    using assms(1-6) by (simp add: runProject_def runProject_resolve_def)
  have b: "FindStringSubmatch (ReplaceAllString configContent (main_file_assignment F)) =
             [main_file_assignment F, ''src/'' @ F]"
    using assms(7-9) by (simp add: rewrite_then_read)
  from a b show ?thesis by (simp add: runProject_execute_def)
qed

theorem run_target_rewrites_config_first_witness:
  \<open>failed (runProject machine_sys demo_project [''run'', ''missing.ms'']) = Some MainFileNotFound
   \<and> ReadFile machine_sys
        (final_state (runProject machine_sys demo_project [''run'', ''missing.ms'']))
        ''/w/demo/bituin.toml''
      = Inr (ReplaceAllString (getBituinToml ''demo'') (main_file_assignment ''missing.ms''))
   \<and> FindStringSubmatch
        (ReplaceAllString (getBituinToml ''demo'') (main_file_assignment ''missing.ms''))
      = [''main_file = "src/missing.ms"'', ''src/missing.ms'']\<close>
proof -
  let ?new = "ReplaceAllString (getBituinToml ''demo'') (main_file_assignment ''missing.ms'')"
  let ?s1 = "demo_project\<lparr>entries :=
               put ''/w/demo/bituin.toml'' (File ?new) (entries demo_project)\<rparr>"
  have h1: "runProject_parse (drop 1 [''run'', ''missing.ms'']) False [] = (False, ''missing.ms'')"
    by (simp add: PREVIEW_FLAG_def)
  have h2: "''missing.ms'' \<noteq> []" by simp
  have h3: "Getwd machine_sys demo_project = Inr ''/w/demo''"
    by (simp add: machine_simps demo_project_def)
  have h4: "\<not> IsNotExist (Stat machine_sys demo_project
               (Join machine_sys [''/w/demo'', ''bituin.toml'']))"
    by (simp add: machine_simps demo_project_def)
  have h5: "ReadFile machine_sys demo_project (Join machine_sys [''/w/demo'', ''bituin.toml''])
              = Inr (getBituinToml ''demo'')"
    by (simp add: machine_simps demo_project_def)
  have h6: "WriteFile machine_sys demo_project (Join machine_sys [''/w/demo'', ''bituin.toml''])
              ?new = (None, ?s1)"
    by (simp add: machine_simps demo_project_def)
  have h7: "FindStringSubmatch (getBituinToml ''demo'') \<noteq> []"
    by (simp add: getBituinToml_def match_here_def isSpace_def notQuote_def)
  have h8: "CHR ''$'' \<notin> set ''missing.ms''" by simp
  have h9: "CHR 0x22 \<notin> set ''missing.ms''" by simp
  have h10: "IsNotExist (Stat machine_sys ?s1 (Join machine_sys [''/w/demo'', ''src'', ''missing.ms'']))"
    by (simp add: machine_simps demo_project_def)
  have r: "ReadFile machine_sys ?s1 ''/w/demo/bituin.toml'' = Inr ?new"
    by (simp add: machine_simps demo_project_def)
  note t = run_target_rewrites_config_first [OF h1 h2 h3 h4 h5 h6 h7 h8 h9]
  note stopped = t [THEN conjunct2, THEN conjunct1, THEN mp, OF h10]
  have e: "failed (runProject machine_sys demo_project [''run'', ''missing.ms''])
             = Some MainFileNotFound"
    "final_state (runProject machine_sys demo_project [''run'', ''missing.ms'']) = ?s1"
    unfolding stopped by (simp_all add: failed_def final_state_def)
  have "FindStringSubmatch ?new = [main_file_assignment ''missing.ms'', ''src/missing.ms'']"
    using t [THEN conjunct2, THEN conjunct2] by simp
  then have \<open>FindStringSubmatch ?new = [''main_file = "src/missing.ms"'', ''src/missing.ms'']\<close>
    by (simp add: main_file_assignment_def)
  with e r show ?thesis by simp
qed

text \<open>
  What C1 says of every invocation fails in a project whose configuration has no
  \<^verbatim>\<open>main_file\<close> assignment: \<^verbatim>\<open>run missing.ms\<close> ends because the main file does not
  exist, and the configuration it leaves has no assignment at all.
\<close>

theorem run_target_rewrites_config_first_counterexample:
  \<open>failed (runProject machine_sys bare_project [''run'', ''missing.ms'']) = Some MainFileNotFound
   \<and> ReadFile machine_sys
        (final_state (runProject machine_sys bare_project [''run'', ''missing.ms'']))
        ''/w/bare/bituin.toml''
      = Inr ''[package]\<newline>name = "bare"''
   \<and> FindStringSubmatch ''[package]\<newline>name = "bare"'' = []\<close>
  by (simp add: runProject_def runProject_resolve_def runProject_execute_def machine_simps
      bare_project_def PREVIEW_FLAG_def main_file_assignment_def match_here_def
      failed_def final_state_def Let_def)

text \<open>
  C2 fails on the code: \<^verbatim>\<open>ReplaceAllString\<close> rewrites every assignment. With two
  assignments in the configuration and the target \<^verbatim>\<open>x.ms\<close>, the second one is rewritten
  as well.
\<close>

theorem rewrite_changes_every_assignment:
  \<open>ReplaceAllString ''main_file = "a"\<newline>main_file = "b"'' (main_file_assignment ''x.ms'')
     = ''main_file = "src/x.ms"\<newline>main_file = "src/x.ms"''\<close>
  by (simp add: main_file_assignment_def match_here_def isSpace_def notQuote_def)

theorem rewrite_changes_every_assignment_witness:
  \<open>ReplaceAllString ''main_file = "a"\<newline>main_file = "b"'' (main_file_assignment ''x.ms'')
     \<noteq> ''main_file = "src/x.ms"\<newline>main_file = "b"''\<close>
  using rewrite_changes_every_assignment by simp

text \<open>
  C3 fails on the code: the file name is part of a replacement template. In the
  project that \<^verbatim>\<open>new demo\<close> makes, \<^verbatim>\<open>run $1\<close> writes a configuration that reads back as
  \<^verbatim>\<open>src/src/main.microscript\<close>, not as \<^verbatim>\<open>src/$1\<close>.
\<close>

theorem dollar_target_reads_back_differently:
  \<open>FindStringSubmatch (ReplaceAllString (getBituinToml ''demo'') (main_file_assignment ''$1''))
     = [''main_file = "src/src/main.microscript"'', ''src/src/main.microscript'']\<close>
  by (simp add: getBituinToml_def main_file_assignment_def match_here_def isSpace_def
      notQuote_def extract_name_def isNameByte_def isDigit_def isLetter_def submatch_def)

theorem dollar_target_reads_back_differently_witness:
  \<open>CHR 0x22 \<notin> set ''src/$1''
   \<and> FindStringSubmatch (getBituinToml ''demo'') \<noteq> []
   \<and> FindStringSubmatch
        (ReplaceAllString (getBituinToml ''demo'') (main_file_assignment ''$1'')) ! 1
      \<noteq> ''src/$1''\<close>
proof -
  have "FindStringSubmatch (getBituinToml ''demo'') \<noteq> []"
    by (simp add: getBituinToml_def match_here_def isSpace_def notQuote_def)
  with dollar_target_reads_back_differently show ?thesis by simp
qed

text \<open>
  C4. \<^verbatim>\<open>run\<close> takes any number of arguments: the dispatcher passes them on whatever
  their number, the command never ends with a usage error, preview mode is on exactly
  when some argument is \<^verbatim>\<open>--preview\<close>, and the target is the last of the other
  arguments wherever the flag stands (the empty name when there is none, which the
  command reads as no target).
\<close>

theorem run_takes_any_arguments:
  "main os s (RUN # rest) = runProject os s (RUN # rest)
   \<and> failed (runProject os s (RUN # rest)) \<noteq> Some UsageError
   \<and> runProject os s (RUN # rest) =
       (let isPreview = (PREVIEW_FLAG \<in> set rest);
            targetFile = (case filter (\<lambda>a. a \<noteq> PREVIEW_FLAG) rest of
                            [] \<Rightarrow> [] | x # xs \<Rightarrow> last (x # xs))
        in case runProject_resolve os s targetFile of
             (s1, Inl (out, f)) \<Rightarrow> (s1, out, Some f)
           | (s1, Inr (cwd, mainFile, mainFileName)) \<Rightarrow>
               runProject_execute os s1 isPreview cwd mainFile mainFileName)"
proof -
  have a: "main os s (RUN # rest) = runProject os s (RUN # rest)"
    by (simp add: main_def command_names)
  have b: "failed (runProject os s (RUN # rest)) \<noteq> Some UsageError"
    using runProject_resolve_no_usage [of os s] runProject_execute_no_usage [of os]
    by (auto simp: runProject_def failed_def split: prod.splits sum.splits)
  have c: "runProject os s (RUN # rest) =
       (let isPreview = (PREVIEW_FLAG \<in> set rest);
            targetFile = (case filter (\<lambda>a. a \<noteq> PREVIEW_FLAG) rest of
                            [] \<Rightarrow> [] | x # xs \<Rightarrow> last (x # xs))
        in case runProject_resolve os s targetFile of
             (s1, Inl (out, f)) \<Rightarrow> (s1, out, Some f)
           | (s1, Inr (cwd, mainFile, mainFileName)) \<Rightarrow>
               runProject_execute os s1 isPreview cwd mainFile mainFileName)"
    by (simp add: runProject_def runProject_parse_eq Let_def)
  from a b c show ?thesis by blast
qed

theorem run_takes_any_arguments_witness:
  "main machine_sys demo_project [''run'', ''a.ms'', ''--preview'', ''b.ms'', ''--preview'']
     = (case runProject_resolve machine_sys demo_project ''b.ms'' of
          (s1, Inl (out, f)) \<Rightarrow> (s1, out, Some f)
        | (s1, Inr (cwd, mainFile, mainFileName)) \<Rightarrow>
            runProject_execute machine_sys s1 True cwd mainFile mainFileName)
   \<and> failed (runProject machine_sys demo_project
               [''run'', ''a.ms'', ''--preview'', ''b.ms'', ''--preview'']) \<noteq> Some UsageError"
proof -
  note t = run_takes_any_arguments
             [of machine_sys demo_project "[''a.ms'', ''--preview'', ''b.ms'', ''--preview'']"]
  have "runProject machine_sys demo_project (RUN # [''a.ms'', ''--preview'', ''b.ms'', ''--preview''])
     = (case runProject_resolve machine_sys demo_project ''b.ms'' of
          (s1, Inl (out, f)) \<Rightarrow> (s1, out, Some f)
        | (s1, Inr (cwd, mainFile, mainFileName)) \<Rightarrow>
            runProject_execute machine_sys s1 True cwd mainFile mainFileName)"
    unfolding t [THEN conjunct2, THEN conjunct2] by (simp add: PREVIEW_FLAG_def)
  with t [THEN conjunct1] t [THEN conjunct2, THEN conjunct1]
  show ?thesis by (simp add: RUN_def)
qed

text \<open>
  C5. \<^verbatim>\<open>run\<close> without a target, in a project whose configuration is read and has no
  \<^verbatim>\<open>main_file\<close> assignment: the main file is \<^verbatim>\<open>src/main.microscript\<close> under the working
  directory, and the command goes on with it.
\<close>

theorem run_default_main_file:
  assumes "runProject_parse (drop 1 args) False [] = (isPreview, [])"
    and "Getwd os s = Inr cwd"
    and "\<not> IsNotExist (Stat os s (Join os [cwd, ''bituin.toml'']))"
    and "ReadFile os s (Join os [cwd, ''bituin.toml'']) = Inr configContent"
    and "FindStringSubmatch configContent = []"
  shows "runProject_resolve os s [] =
           (s, Inr (cwd, Join os [cwd, ''src'', ''main.microscript''], ''main.microscript''))
    \<and> runProject os s args =
           runProject_execute os s isPreview cwd
             (Join os [cwd, ''src'', ''main.microscript'']) ''main.microscript''"
  using assms by (simp add: runProject_def runProject_resolve_def)

theorem run_default_main_file_witness:
  "runProject_resolve machine_sys bare_project [] =
     (bare_project, Inr (''/w/bare'', ''/w/bare/src/main.microscript'', ''main.microscript''))
   \<and> runProject machine_sys bare_project [''run'', ''--preview''] =
       runProject_execute machine_sys bare_project True ''/w/bare''
         ''/w/bare/src/main.microscript'' ''main.microscript''"
proof -
  have h1: "runProject_parse (drop 1 [''run'', ''--preview'']) False [] = (True, [])"
    by (simp add: PREVIEW_FLAG_def)
  have h2: "Getwd machine_sys bare_project = Inr ''/w/bare''"
    by (simp add: machine_simps bare_project_def)
  have h3: "\<not> IsNotExist (Stat machine_sys bare_project
               (Join machine_sys [''/w/bare'', ''bituin.toml'']))"
    by (simp add: machine_simps bare_project_def)
  have h4: \<open>ReadFile machine_sys bare_project (Join machine_sys [''/w/bare'', ''bituin.toml''])
              = Inr ''[package]\<newline>name = "bare"''\<close>
    by (simp add: machine_simps bare_project_def)
  have h5: \<open>FindStringSubmatch ''[package]\<newline>name = "bare"'' = []\<close>
    by (simp add: match_here_def)
  have j: "Join machine_sys [''/w/bare'', ''src'', ''main.microscript'']
             = ''/w/bare/src/main.microscript''"
    by (simp add: machine_sys_def)
  from run_default_main_file [OF h1 h2 h3 h4 h5] show ?thesis
    unfolding j .
qed

text \<open>
  C6. \<^verbatim>\<open>new N\<close> when something is at \<^verbatim>\<open>cwd/N\<close> (\<^verbatim>\<open>Stat\<close> succeeds, or fails otherwise than
  with not-exist): the command prints that the directory exists already, ends with
  status 1, and the state of the machine is the one it started in.
\<close>

theorem new_on_existing_path_fails:
  assumes "Getwd os s = Inr cwd"
    and "\<not> IsNotExist (Stat os s (Join os [cwd, N]))"
  shows \<open>main os s (NEW # N # rest) =
           (s, [''Error: Directory "'' @ N @ ''" already exists.'' @ nl], Some AlreadyExists)
         \<and> final_state (main os s (NEW # N # rest)) = s
         \<and> exit_status (main os s (NEW # N # rest)) = 1\<close>
  using assms
  by (simp add: main_def createProject_def command_names final_state_def exit_status_def
      failed_def)

theorem new_on_existing_path_fails_witness:
  \<open>Stat machine_sys demo_project ''/w/demo/bituin.toml'' = None
   \<and> main machine_sys demo_project [''new'', ''bituin.toml''] =
       (demo_project, [''Error: Directory "bituin.toml" already exists.\<newline>''],
        Some AlreadyExists)
   \<and> exit_status (main machine_sys demo_project [''new'', ''bituin.toml'']) = 1\<close>
proof -
  have h1: "Getwd machine_sys demo_project = Inr ''/w/demo''"
    by (simp add: machine_simps demo_project_def)
  have e: "Stat machine_sys demo_project ''/w/demo/bituin.toml'' = None"
    by (simp add: machine_simps demo_project_def)
  have j: "Join machine_sys [''/w/demo'', ''bituin.toml''] = ''/w/demo/bituin.toml''"
    by (simp add: machine_sys_def)
  have h2: "\<not> IsNotExist (Stat machine_sys demo_project
               (Join machine_sys [''/w/demo'', ''bituin.toml'']))"
    unfolding j e by (simp add: IsNotExist_def)
  from new_on_existing_path_fails [OF h1 h2, of "[]"] e show ?thesis
    unfolding j by (simp add: NEW_def nl_def exit_status_def failed_def)
qed

text \<open>
  C7. \<^verbatim>\<open>add F\<close> in a directory without \<^verbatim>\<open>bituin.toml\<close>: the command prints that this is
  not a project directory, ends with status 1, and the state of the machine is the one
  it started in: nothing was created.
\<close>

theorem add_outside_project_fails:
  assumes "Getwd os s = Inr cwd"
    and "IsNotExist (Stat os s (Join os [cwd, ''bituin.toml'']))"
  shows "main os s (ADD # F # rest) =
           (s, [''Error: Not in a Bituin project directory'' @ nl], Some NotAProject)
         \<and> final_state (main os s (ADD # F # rest)) = s
         \<and> exit_status (main os s (ADD # F # rest)) = 1"
  using assms
  by (simp add: main_def addMicroscriptFile_def command_names final_state_def exit_status_def
      failed_def)

theorem add_outside_project_fails_witness:
  "IsNotExist (Stat machine_sys plain_directory ''/w/bituin.toml'')
   \<and> main machine_sys plain_directory [''add'', ''util.microscript''] =
       (plain_directory, [''Error: Not in a Bituin project directory\<newline>''], Some NotAProject)
   \<and> exit_status (main machine_sys plain_directory [''add'', ''util.microscript'']) = 1"
proof -
  have h1: "Getwd machine_sys plain_directory = Inr ''/w''"
    by (simp add: machine_simps plain_directory_def)
  have j: "Join machine_sys [''/w'', ''bituin.toml''] = ''/w/bituin.toml''"
    by (simp add: machine_sys_def)
  have e: "IsNotExist (Stat machine_sys plain_directory ''/w/bituin.toml'')"
    by (simp add: machine_simps plain_directory_def)
  have h2: "IsNotExist (Stat machine_sys plain_directory (Join machine_sys [''/w'', ''bituin.toml'']))"
    unfolding j by (rule e)
  from add_outside_project_fails [OF h1 h2, of "''util.microscript''" "[]"] e show ?thesis
    by (simp add: ADD_def nl_def exit_status_def failed_def)
qed

text \<open>
  C8, as amended. Each of \<^verbatim>\<open>new\<close>, \<^verbatim>\<open>init\<close> and \<^verbatim>\<open>add\<close> needs at least one argument
  after it: with none it prints its error and the whole usage text and ends with
  status 1; with one or more it runs on the first and ignores the others.
\<close>

theorem positional_argument_required:
  "main os s [NEW] =
     (s, [''Error: Project name required for new command'' @ nl] @ printUsage, Some UsageError)
   \<and> main os s [INIT] =
     (s, [''Error: Project name required for init command'' @ nl] @ printUsage, Some UsageError)
   \<and> main os s [ADD] =
     (s, [''Error: File name required for add command'' @ nl] @ printUsage, Some UsageError)
   \<and> exit_status (main os s [NEW]) = 1
   \<and> exit_status (main os s [INIT]) = 1
   \<and> exit_status (main os s [ADD]) = 1
   \<and> main os s (NEW # a # rest) = createProject os s a True
   \<and> main os s (INIT # a # rest) = createProject os s a False
   \<and> main os s (ADD # a # rest) = addMicroscriptFile os s a"
  by (simp add: main_def command_names exit_status_def failed_def)

theorem positional_argument_required_witness:
  "exit_status (main machine_sys demo_project [''init'']) = 1
   \<and> printed (main machine_sys demo_project [''init'']) =
       (''Error: Project name required for init command'' @ nl) # printUsage
   \<and> main machine_sys demo_project [''init'', ''demo'', ''more''] =
       createProject machine_sys demo_project ''demo'' False"
proof -
  note t = positional_argument_required [of machine_sys demo_project "''demo''" "[''more'']"]
  note no_argument = t [THEN conjunct2, THEN conjunct1]
  note status = t [THEN conjunct2, THEN conjunct2, THEN conjunct2, THEN conjunct2,
                   THEN conjunct1]
  note extra = t [THEN conjunct2, THEN conjunct2, THEN conjunct2, THEN conjunct2,
                  THEN conjunct2, THEN conjunct2, THEN conjunct2, THEN conjunct1]
  have "printed (main machine_sys demo_project [INIT]) =
          (''Error: Project name required for init command'' @ nl) # printUsage"
    unfolding no_argument by (simp add: printed_def)
  with status extra show ?thesis by (simp add: INIT_def)
qed

text \<open>
  What C8 says of more than one argument fails: \<^verbatim>\<open>new app extra\<close> is no usage error,
  it ends with status 0 and does what \<^verbatim>\<open>new app\<close> does.
\<close>

theorem positional_argument_required_counterexample:
  "exit_status (main machine_sys demo_project [''new'', ''app'', ''extra'']) = 0
   \<and> main machine_sys demo_project [''new'', ''app'', ''extra'']
       = main machine_sys demo_project [''new'', ''app'']"
  by (simp add: main_def command_names createProject_def createDirectoryStructure_def
      createMainMicroscript_def createBituinConfig_def machine_simps demo_project_def
      exit_status_def failed_def)

text \<open>
  C9. \<^verbatim>\<open>run\<close> with a target \<open>F\<close>, in a project whose configuration is read and has no
  \<^verbatim>\<open>main_file\<close> assignment: the text written back is the text that was read, nothing is
  printed about it, and when the write succeeds the command goes on with
  \<^verbatim>\<open>src/F\<close> under the working directory as its main file.
\<close>

theorem run_target_without_assignment:
  assumes "runProject_parse (drop 1 args) False [] = (isPreview, F)"
    and "F \<noteq> []"
    and "Getwd os s = Inr cwd"
    and "\<not> IsNotExist (Stat os s (Join os [cwd, ''bituin.toml'']))"
    and "ReadFile os s (Join os [cwd, ''bituin.toml'']) = Inr configContent"
    and "FindStringSubmatch configContent = []"
  shows "ReplaceAllString configContent (main_file_assignment F) = configContent
    \<and> runProject os s args =
        (case WriteFile os s (Join os [cwd, ''bituin.toml'']) configContent of
           (Some err, s1) \<Rightarrow>
             (s1, [''Error updating bituin.toml: '' @ errText err @ nl], Some IOFailure)
         | (None, s1) \<Rightarrow>
             runProject_execute os s1 isPreview cwd (Join os [cwd, ''src'', F]) F)"
  using assms
  by (simp add: runProject_def runProject_resolve_def no_match_ReplaceAllString
      split: prod.splits option.splits)

theorem run_target_without_assignment_witness:
  \<open>ReplaceAllString ''[package]\<newline>name = "bare"'' (main_file_assignment ''main.microscript'')
     = ''[package]\<newline>name = "bare"''
   \<and> WriteFile machine_sys bare_project ''/w/bare/bituin.toml'' ''[package]\<newline>name = "bare"''
     = (None, bare_project)
   \<and> runProject machine_sys bare_project [''run'', ''main.microscript''] =
       runProject_execute machine_sys bare_project False ''/w/bare''
         ''/w/bare/src/main.microscript'' ''main.microscript''\<close>
proof -
  have h1: "runProject_parse (drop 1 [''run'', ''main.microscript'']) False []
              = (False, ''main.microscript'')"
    by (simp add: PREVIEW_FLAG_def)
  have h2: "''main.microscript'' \<noteq> []" by simp
  have h3: "Getwd machine_sys bare_project = Inr ''/w/bare''"
    by (simp add: machine_simps bare_project_def)
  have h4: "\<not> IsNotExist (Stat machine_sys bare_project
               (Join machine_sys [''/w/bare'', ''bituin.toml'']))"
    by (simp add: machine_simps bare_project_def)
  have h5: \<open>ReadFile machine_sys bare_project (Join machine_sys [''/w/bare'', ''bituin.toml''])
              = Inr ''[package]\<newline>name = "bare"''\<close>
    by (simp add: machine_simps bare_project_def)
  have h6: \<open>FindStringSubmatch ''[package]\<newline>name = "bare"'' = []\<close>
    by (simp add: match_here_def)
  have w: \<open>WriteFile machine_sys bare_project ''/w/bare/bituin.toml''
             ''[package]\<newline>name = "bare"'' = (None, bare_project)\<close>
    by (simp add: machine_simps bare_project_def)
  have j: "Join machine_sys [''/w/bare'', ''bituin.toml''] = ''/w/bare/bituin.toml''"
    "Join machine_sys [''/w/bare'', ''src'', ''main.microscript'']
       = ''/w/bare/src/main.microscript''"
    by (simp_all add: machine_sys_def)
  note t = run_target_without_assignment [OF h1 h2 h3 h4 h5 h6]
  from t [THEN conjunct2] have
    "runProject machine_sys bare_project [''run'', ''main.microscript''] =
       runProject_execute machine_sys bare_project False ''/w/bare''
         ''/w/bare/src/main.microscript'' ''main.microscript''"
    unfolding j w by simp
  with t [THEN conjunct1] w show ?thesis by simp
qed



end
